theory Spec2Isabelle
  imports Complex_Main "HOL-Library.AList"
begin

section \<open>QueueMonitor: the monitoring engine of \<^verbatim>\<open>5_QueueMonitor.py\<close> (class JVMThread)\<close>

text \<open>
  The engine talks to a JMS broker through a Java bridge. Every call into the bridge can
  raise; the source wraps such calls in \<^verbatim>\<open>try/except\<close>. A fallible call is modelled as a
  value of \<open>py_exception + 'a\<close> (\<open>Inl\<close> is the raised exception). A Java reference that may
  be \<^verbatim>\<open>null\<close> is an \<open>option\<close>; Python's \<^verbatim>\<open>str(None)\<close> is the text \<^verbatim>\<open>None\<close>.
  Signals emitted to the user interface (log lines, error lines, message snapshots) do not
  change the engine's state and are left out of the model.
\<close>

subsection \<open>Data model\<close>

datatype py_exception = JavaException | AttributeError

definition py_str :: "string option \<Rightarrow> string" where
  "py_str v = (case v of None \<Rightarrow> ''None'' | Some s \<Rightarrow> s)"

text \<open>
  A JMS message as delivered by the bridge. \<open>getText\<close> and \<open>toString\<close> are \<open>None\<close> when
  the object has no such attribute (\<^verbatim>\<open>hasattr\<close> is false). \<open>str_message\<close> is
  \<^verbatim>\<open>str(message)\<close>, \<open>getClassName\<close> is \<^verbatim>\<open>message.getClass().getName()\<close>.
\<close>

record jms_message =
  getJMSMessageID :: "py_exception + string option"
  getPropertyNames :: "py_exception + string list"
  getStringProperty :: "string \<Rightarrow> py_exception + string option"
  getClassName :: "py_exception + string"
  getText :: "(py_exception + string option) option"
  toString :: "(py_exception + string option) option"
  str_message :: string
  getJMSTimestamp :: "py_exception + int"

text \<open>
  The message dictionary the engine builds (keys \<^verbatim>\<open>id, body, properties, destination,
  type, message_type, timestamp\<close>). \<open>properties\<close> is a Python dict filled by assignment,
  modelled as an association list with \<open>AList.update\<close>.
\<close>

record message_info =
  id_info :: string
  body :: string
  properties :: "(string \<times> string) list"
  destination :: string
  type_info :: string
  message_type :: string
  timestamp :: int

text \<open>
  The fields of \<^verbatim>\<open>JVMThread\<close> the monitoring engine uses. \<open>connection\<close> and \<open>session\<close>
  hold a handle or \<^verbatim>\<open>None\<close>. \<open>cached_queues\<close> and \<open>cached_topics\<close> are the attributes
  \<^verbatim>\<open>_cached_queues\<close> and \<^verbatim>\<open>_cached_topics\<close>, which do not exist (\<open>None\<close>) until
  \<^verbatim>\<open>get_destinations\<close> creates them. \<open>topic_consumers\<close> is a dict that is iterated
  over, so it is an association list in insertion order; its values are consumer handles.
\<close>

record jvm_thread =
  connection :: "nat option"
  session :: "nat option"
  monitor_running :: bool
  message_cache :: "string \<rightharpoonup> message_info list"
  topic_consumers :: "(string \<times> nat) list"
  monitored_queues :: "string list"
  monitored_topics :: "string list"
  cached_queues :: "string list option"
  cached_topics :: "string list option"

text \<open>\<^verbatim>\<open>__init__\<close>\<close>

definition jvm_thread_init :: jvm_thread where
  "jvm_thread_init =
     \<lparr>connection = None, session = None, monitor_running = False,
      message_cache = Map.empty, topic_consumers = [],
      monitored_queues = [], monitored_topics = [],
      cached_queues = None, cached_topics = None\<rparr>"

text \<open>The test \<^verbatim>\<open>if not self.connection or not self.session\<close>.\<close>

definition not_connected :: "jvm_thread \<Rightarrow> bool" where
  "not_connected st = (connection st = None \<or> session st = None)"

text \<open>The cache and consumer keys \<^verbatim>\<open>f"queue:{queue}"\<close> and \<^verbatim>\<open>f"topic:{topic_name}"\<close>.\<close>

definition queue_key :: "string \<Rightarrow> string" where
  "queue_key queue = ''queue:'' @ queue"

definition topic_key :: "string \<Rightarrow> string" where
  "topic_key topic_name = ''topic:'' @ topic_name"

text \<open>The cache entry of a key, read as the empty list when the key is absent.\<close>

definition cache_entry :: "jvm_thread \<Rightarrow> string \<Rightarrow> message_info list" where
  "cache_entry st k = (case message_cache st k of None \<Rightarrow> [] | Some ms \<Rightarrow> ms)"

subsection \<open>The topic push callback: \<^verbatim>\<open>_on_topic_message\<close>\<close>

text \<open>
  The part of \<^verbatim>\<open>_on_topic_message\<close> that builds \<^verbatim>\<open>message_info\<close>. The id is read first
  and the timestamp while the dictionary is built; both reads are inside the outer
  \<^verbatim>\<open>try\<close> only, so an exception from either leaves the method through its handler. The
  body read has a handler of its own.
\<close>

definition topic_message_info :: "jms_message \<Rightarrow> string \<Rightarrow> py_exception + message_info" where
  "topic_message_info message topic_name =
     (case getJMSMessageID message of
        Inl e \<Rightarrow> Inl e
      | Inr mid \<Rightarrow>
          (let message_id = py_str mid;
               body_text =
                 (case getText message of
                    Some r \<Rightarrow>
                      (case r of
                         Inl e \<Rightarrow> ''[Could not extract message body]''
                       | Inr t \<Rightarrow> py_str t)
                  | None \<Rightarrow> str_message message)
           in case getJMSTimestamp message of
                Inl e \<Rightarrow> Inl e
              | Inr ts \<Rightarrow>
                  Inr \<lparr>id_info = message_id, body = body_text, properties = [],
                       destination = topic_name, type_info = ''topic'',
                       message_type = ''text'', timestamp = ts\<rparr>))"

text \<open>
  \<^verbatim>\<open>_on_topic_message(message, topic_name)\<close>: a null message returns at once; an
  exception is caught by the outer handler, which only reports it; otherwise the record is
  appended to the entry of \<^verbatim>\<open>topic:\<close> followed by the name, created empty when absent.
\<close>

definition on_topic_message :: "jms_message option \<Rightarrow> string \<Rightarrow> jvm_thread \<Rightarrow> jvm_thread" where
  "on_topic_message message topic_name st =
     (case message of
        None \<Rightarrow> st
      | Some m \<Rightarrow>
          (case topic_message_info m topic_name of
             Inl e \<Rightarrow> st
           | Inr info \<Rightarrow>
               (let dest_key = topic_key topic_name;
                    cache0 = (if dest_key \<notin> dom (message_cache st)
                              then (message_cache st)(dest_key \<mapsto> [])
                              else message_cache st);
                    entry = (case cache0 dest_key of None \<Rightarrow> [] | Some ms \<Rightarrow> ms)
                in st\<lparr>message_cache := cache0(dest_key \<mapsto> entry @ [info])\<rparr>)))"

subsection \<open>Browsing a queue: \<^verbatim>\<open>browse_queue\<close>\<close>

text \<open>Python's \<^verbatim>\<open>s.startswith(p)\<close> and \<^verbatim>\<open>p in s\<close> on strings.\<close>

definition startswith :: "string \<Rightarrow> string \<Rightarrow> bool" where
  "startswith s p = (take (length p) s = p)"

fun str_contains :: "string \<Rightarrow> string \<Rightarrow> bool" where
  "str_contains p [] = (p = [])"
| "str_contains p (c # cs) = (startswith (c # cs) p \<or> str_contains p cs)"

text \<open>
  The inner \<^verbatim>\<open>while property_enum.hasMoreElements()\<close> loop: each name is looked up with
  \<^verbatim>\<open>getStringProperty\<close> and stored under \<^verbatim>\<open>properties[prop_name]\<close>; a raising lookup
  leaves the loop with the exception.
\<close>

fun read_properties ::
  "jms_message \<Rightarrow> string list \<Rightarrow> (string \<times> string) list \<Rightarrow> py_exception + (string \<times> string) list"
where
  "read_properties message [] props = Inr props"
| "read_properties message (prop_name # names) props =
     (case getStringProperty message prop_name of
        Inl e \<Rightarrow> Inl e
      | Inr v \<Rightarrow> read_properties message names (AList.update prop_name (py_str v) props))"

text \<open>
  The block commented \<^verbatim>\<open># Simple message body extraction\<close>: the pair (body,
  message_type). Both start as \<^verbatim>\<open>"Unknown data type"\<close> and \<^verbatim>\<open>"unknown"\<close>; an exception
  anywhere in the block sets the body to \<^verbatim>\<open>str(message)\<close> and keeps the message_type
  assigned so far. A missing \<^verbatim>\<open>getText\<close> attribute raises AttributeError there.
\<close>

definition queue_body :: "jms_message \<Rightarrow> string \<times> string" where
  "queue_body message =
     (case getClassName message of
        Inl e \<Rightarrow> (str_message message, ''unknown'')
      | Inr message_class \<Rightarrow>
          if str_contains ''TextMessage'' message_class then
            (case getText message of
               None \<Rightarrow> (str_message message, ''text'')
             | Some r \<Rightarrow>
                 (case r of
                    Inl e \<Rightarrow> (str_message message, ''text'')
                  | Inr t \<Rightarrow> (py_str t, ''text'')))
          else
            (case toString message of
               None \<Rightarrow> (''Unknown data type'', ''unknown'')
             | Some r \<Rightarrow>
                 (case r of
                    Inl e \<Rightarrow> (str_message message, ''unknown'')
                  | Inr s \<Rightarrow> (py_str s, ''string''))))"

text \<open>
  The inner \<^verbatim>\<open>try\<close> of the browse loop (\<^verbatim>\<open># Process valid message\<close>): \<open>Inl\<close> is the
  exception its handler catches with \<^verbatim>\<open>continue\<close>.
\<close>

definition queue_message_info :: "jms_message \<Rightarrow> string \<Rightarrow> py_exception + message_info" where
  "queue_message_info message queue_name =
     (case getJMSMessageID message of
        Inl e \<Rightarrow> Inl e
      | Inr mid \<Rightarrow>
          (case getPropertyNames message of
             Inl e \<Rightarrow> Inl e
           | Inr names \<Rightarrow>
               (case read_properties message names [] of
                  Inl e \<Rightarrow> Inl e
                | Inr props \<Rightarrow>
                    (case getJMSTimestamp message of
                       Inl e \<Rightarrow> Inl e
                     | Inr ts \<Rightarrow>
                         Inr \<lparr>id_info = py_str mid, body = fst (queue_body message),
                              properties = props, destination = queue_name,
                              type_info = ''queue'',
                              message_type = snd (queue_body message),
                              timestamp = ts\<rparr>))))"

text \<open>
  One iteration of the browser's enumeration, as the loop meets it:
  \<^verbatim>\<open>hasMoreElements()\<close> raises; or it returns true and \<^verbatim>\<open>nextElement()\<close> raises,
  returns null, or returns a message. When no step is left \<^verbatim>\<open>hasMoreElements()\<close>
  returns false.
\<close>

datatype enum_step =
  HasMoreElementsRaises | NextElementRaises | NullElement | Element jms_message

text \<open>
  The loop \<^verbatim>\<open>while message_enum.hasMoreElements()\<close>. The loop condition is outside the
  \<^verbatim>\<open>try\<close> inside the loop, so a raising \<^verbatim>\<open>hasMoreElements()\<close> leaves the loop with
  the exception (\<open>Inl\<close>), which only the outer handler of \<^verbatim>\<open>browse_queue\<close> catches. A
  raising \<^verbatim>\<open>nextElement()\<close> is the \<^verbatim>\<open>break\<close> of the loop's own handler, a null element
  and a failing message are the two \<^verbatim>\<open>continue\<close>s.
\<close>

fun browse_loop ::
  "string \<Rightarrow> enum_step list \<Rightarrow> message_info list \<Rightarrow> py_exception + message_info list"
where
  "browse_loop queue_name [] messages = Inr messages"
| "browse_loop queue_name (HasMoreElementsRaises # rest) messages = Inl JavaException"
| "browse_loop queue_name (NextElementRaises # rest) messages = Inr messages"
| "browse_loop queue_name (NullElement # rest) messages = browse_loop queue_name rest messages"
| "browse_loop queue_name (Element message # rest) messages =
     (case queue_message_info message queue_name of
        Inl e \<Rightarrow> browse_loop queue_name rest messages
      | Inr info \<Rightarrow> browse_loop queue_name rest (messages @ [info]))"

text \<open>What the broker does during one browse, and the calls made to it.\<close>

record browse_env =
  createQueue_raises :: bool
  createSession_raises :: bool
  temp_createBrowser_raises :: bool
  createBrowser_raises :: bool
  getEnumeration :: "py_exception + enum_step list"
  browser_close_raises :: bool
  temp_session_close_raises :: bool

datatype broker_call =
  CreateQueue string | CreateSession | CreateBrowserTemp | CreateBrowserShared
  | GetEnumeration | HasMoreElements | NextElement | CloseBrowser | CloseTempSession

text \<open>The \<^verbatim>\<open>hasMoreElements()\<close> and \<^verbatim>\<open>nextElement()\<close> calls the loop makes.\<close>

fun scan_calls :: "enum_step list \<Rightarrow> broker_call list" where
  "scan_calls [] = [HasMoreElements]"
| "scan_calls (HasMoreElementsRaises # rest) = [HasMoreElements]"
| "scan_calls (NextElementRaises # rest) = [HasMoreElements, NextElement]"
| "scan_calls (s # rest) = HasMoreElements # NextElement # scan_calls rest"

text \<open>
  Opening the browser: with \<^verbatim>\<open>force_new_browser\<close> a temporary session is tried first and
  any failure falls back to the shared session. The result is whether a browser was
  obtained (otherwise the exception reaches the outer handler), whether \<^verbatim>\<open>temp_session\<close>
  is bound, and the calls made.
\<close>

definition open_browser :: "browse_env \<Rightarrow> bool \<Rightarrow> bool \<times> bool \<times> broker_call list" where
  "open_browser env force_new_browser =
     (if force_new_browser then
        (if createSession_raises env then
           (\<not> createBrowser_raises env, False, [CreateSession, CreateBrowserShared])
         else if temp_createBrowser_raises env then
           (\<not> createBrowser_raises env, True,
            [CreateSession, CreateBrowserTemp, CreateBrowserShared])
         else (True, True, [CreateSession, CreateBrowserTemp]))
      else (\<not> createBrowser_raises env, False, [CreateBrowserShared]))"

text \<open>The block \<^verbatim>\<open># Close browser\<close>.\<close>

definition close_calls :: "browse_env \<Rightarrow> bool \<Rightarrow> bool \<Rightarrow> broker_call list" where
  "close_calls env force_new_browser has_temp =
     CloseBrowser #
     (if \<not> browser_close_raises env \<and> force_new_browser \<and> has_temp
      then [CloseTempSession] else [])"

text \<open>
  \<^verbatim>\<open>browse_queue(queue_name, update_ui, auto_refresh, force_new_browser)\<close>: the returned
  list and the broker calls made. \<^verbatim>\<open>update_ui\<close> and \<^verbatim>\<open>auto_refresh\<close> only decide
  which signals are emitted. An exception that is not caught inside the loop (from the
  calls before the loop, or from \<^verbatim>\<open>hasMoreElements()\<close>) reaches the outer handler,
  which returns the empty list; the block that closes the browser is then not reached.
\<close>

definition browse_queue ::
  "jvm_thread \<Rightarrow> browse_env \<Rightarrow> string \<Rightarrow> bool \<Rightarrow> bool \<Rightarrow> bool \<Rightarrow> message_info list \<times> broker_call list"
where
  "browse_queue st env queue_name update_ui auto_refresh force_new_browser =
     (if not_connected st then ([], [])
      else if createQueue_raises env then ([], [CreateQueue queue_name])
      else
        (case open_browser env force_new_browser of
           (ok, has_temp, calls) \<Rightarrow>
             if \<not> ok then ([], CreateQueue queue_name # calls)
             else
               (case getEnumeration env of
                  Inl e \<Rightarrow> ([], CreateQueue queue_name # calls @ [GetEnumeration])
                | Inr steps \<Rightarrow>
                    (case browse_loop queue_name steps [] of
                       Inl e \<Rightarrow>
                         ([], CreateQueue queue_name # calls @ [GetEnumeration]
                                @ scan_calls steps)
                     | Inr messages \<Rightarrow>
                         (messages,
                          CreateQueue queue_name # calls @ [GetEnumeration]
                            @ scan_calls steps
                            @ close_calls env force_new_browser has_temp)))))"

subsection \<open>The poll loop of \<^verbatim>\<open>queue_monitor_thread\<close>\<close>

text \<open>
  The local variables \<^verbatim>\<open>last_checks\<close> and \<^verbatim>\<open>last_message_ids\<close> of the monitor thread.
  Times are the values of \<^verbatim>\<open>time.time()\<close>, taken as real numbers.
\<close>

record poll_state =
  last_checks :: "string \<rightharpoonup> real"
  last_message_ids :: "string \<rightharpoonup> string set"

text \<open>
  The body of \<^verbatim>\<open>for queue in self.monitored_queues\<close> inside the main loop, for one
  queue. \<open>envs queue\<close> is what the broker does when that queue is browsed. The third
  component is the flag \<^verbatim>\<open>new_messages_detected\<close>. \<^verbatim>\<open>browse_queue\<close> catches all its
  exceptions, so the handler of this body is never entered.
\<close>

definition poll_queue ::
  "(string \<Rightarrow> browse_env) \<Rightarrow> real \<Rightarrow> string \<Rightarrow> jvm_thread \<times> poll_state \<times> bool
     \<Rightarrow> jvm_thread \<times> poll_state \<times> bool"
where
  "poll_queue envs current_time queue = (\<lambda>(st, ps, new_messages_detected).
     if current_time - (case last_checks ps queue of None \<Rightarrow> 0 | Some t \<Rightarrow> t) < 1 then
       (st, ps, new_messages_detected)
     else
       (let messages = fst (browse_queue st (envs queue) queue False True True);
            ps1 = ps\<lparr>last_checks := (last_checks ps)(queue \<mapsto> current_time)\<rparr>
        in if messages \<noteq> [] then
             (let current_ids = set (map id_info messages);
                  found_new =
                    (case last_message_ids ps1 queue of
                       None \<Rightarrow> False
                     | Some seen \<Rightarrow> current_ids - seen \<noteq> {});
                  st1 = (if found_new
                         then st\<lparr>message_cache :=
                                  (message_cache st)(queue_key queue \<mapsto> messages)\<rparr>
                         else st)
              in (st1,
                  ps1\<lparr>last_message_ids := (last_message_ids ps1)(queue \<mapsto> current_ids)\<rparr>,
                  new_messages_detected \<or> found_new))
           else (st, ps1, new_messages_detected)))"

text \<open>
  One iteration of \<^verbatim>\<open>while self.monitor_running\<close> after the sleep: every monitored queue
  in turn, starting with the flag cleared.
\<close>

definition poll_tick ::
  "(string \<Rightarrow> browse_env) \<Rightarrow> real \<Rightarrow> jvm_thread \<Rightarrow> poll_state \<Rightarrow> jvm_thread \<times> poll_state \<times> bool"
where
  "poll_tick envs current_time st ps =
     fold (poll_queue envs current_time) (monitored_queues st) (st, ps, False)"

text \<open>Whether the tick browses the queue: it is monitored and its last check is old enough.\<close>

definition polled :: "real \<Rightarrow> jvm_thread \<Rightarrow> poll_state \<Rightarrow> string \<Rightarrow> bool" where
  "polled current_time st ps queue =
     (queue \<in> set (monitored_queues st) \<and>
      \<not> current_time - (case last_checks ps queue of None \<Rightarrow> 0 | Some t \<Rightarrow> t) < 1)"

subsection \<open>Destination discovery: \<^verbatim>\<open>get_destinations\<close>\<close>

text \<open>
  An element of \<^verbatim>\<open>destination_source.getQueues()\<close>: without a \<^verbatim>\<open>getQueueName\<close> attribute
  it is passed over, otherwise its name is read.
\<close>

datatype queue_entry = NoQueueName | QueueName "py_exception + string option"

text \<open>The queue loop of the primary strategy; the flag says that a name read raised.\<close>

fun collect_queues :: "queue_entry list \<Rightarrow> string list \<Rightarrow> string list \<times> bool" where
  "collect_queues [] queues = (queues, False)"
| "collect_queues (NoQueueName # rest) queues = collect_queues rest queues"
| "collect_queues (QueueName r # rest) queues =
     (case r of
        Inl e \<Rightarrow> (queues, True)
      | Inr n \<Rightarrow>
          collect_queues rest
            (if py_str n \<notin> set queues then queues @ [py_str n] else queues))"

text \<open>The topic loop of the primary strategy, on the texts \<^verbatim>\<open>str(topic)\<close>.\<close>

fun collect_topics :: "string list \<Rightarrow> string list \<Rightarrow> string list" where
  "collect_topics [] topics = topics"
| "collect_topics (topic_name # rest) topics =
     collect_topics rest
       (if topic_name \<notin> set topics \<and> \<not> startswith topic_name ''ActiveMQ.Advisory''
        then topics @ [topic_name] else topics)"

text \<open>
  A message received from an advisory topic: without \<^verbatim>\<open>getStringProperty\<close> it is passed
  over, otherwise the property \<^verbatim>\<open>destinationName\<close> is read.
\<close>

datatype advisory_msg = NoGetStringProperty | DestinationName "py_exception + string option"

record advisory_env =
  createConsumer_adv_raises :: bool
  receive_adv :: "nat \<Rightarrow> py_exception + advisory_msg option"
  close_adv_raises :: bool

text \<open>
  The loop \<^verbatim>\<open>for _ in range(3)\<close> of the fallback, over the indices still to do.
  \<open>for_topics\<close> adds the test on the advisory prefix. A raising \<^verbatim>\<open>receive\<close> is outside
  the inner \<^verbatim>\<open>try\<close> and ends the fallback (the flag); a raising property read is passed
  over.
\<close>

fun drain_advisory ::
  "advisory_env \<Rightarrow> bool \<Rightarrow> nat list \<Rightarrow> string list \<Rightarrow> string list \<times> bool"
where
  "drain_advisory adv for_topics [] found = (found, False)"
| "drain_advisory adv for_topics (i # rest) found =
     (case receive_adv adv i of
        Inl e \<Rightarrow> (found, True)
      | Inr None \<Rightarrow> drain_advisory adv for_topics rest found
      | Inr (Some NoGetStringProperty) \<Rightarrow> drain_advisory adv for_topics rest found
      | Inr (Some (DestinationName r)) \<Rightarrow>
          (case r of
             Inl e \<Rightarrow> drain_advisory adv for_topics rest found
           | Inr None \<Rightarrow> drain_advisory adv for_topics rest found
           | Inr (Some name) \<Rightarrow>
               drain_advisory adv for_topics rest
                 (if name \<noteq> [] \<and> name \<notin> set found \<and>
                     \<not> (for_topics \<and> startswith name ''ActiveMQ.Advisory'')
                  then found @ [name] else found)))"

record discovery_env =
  has_getDestinationSource :: bool
  getDestinationSource_raises :: bool
  getQueues :: "py_exception + queue_entry list"
  getTopics :: "py_exception + string list"
  queue_advisory :: advisory_env
  topic_advisory :: advisory_env

text \<open>
  The primary strategy: the lists \<^verbatim>\<open>queues\<close> and \<^verbatim>\<open>topics\<close> after the first inner
  \<^verbatim>\<open>try\<close>. An exception ends the block and keeps what was appended before it.
\<close>

definition primary_discovery :: "discovery_env \<Rightarrow> string list \<times> string list" where
  "primary_discovery env =
     (if \<not> has_getDestinationSource env \<or> getDestinationSource_raises env then ([], [])
      else
        (case getQueues env of
           Inl e \<Rightarrow> ([], [])
         | Inr entries \<Rightarrow>
             (case collect_queues entries [] of
                (queues, raised) \<Rightarrow>
                  if raised then (queues, [])
                  else
                    (case getTopics env of
                       Inl e \<Rightarrow> (queues, [])
                     | Inr names \<Rightarrow> (queues, collect_topics names [])))))"

text \<open>
  The fallback strategy (second inner \<^verbatim>\<open>try\<close>), entered with both lists empty: the
  advisory topic for queues, then the one for topics.
\<close>

definition fallback_discovery :: "discovery_env \<Rightarrow> string list \<times> string list" where
  "fallback_discovery env =
     (if createConsumer_adv_raises (queue_advisory env) then ([], [])
      else
        (case drain_advisory (queue_advisory env) False [0, 1, 2] [] of
           (queues, raised) \<Rightarrow>
             if raised \<or> close_adv_raises (queue_advisory env)
                \<or> createConsumer_adv_raises (topic_advisory env)
             then (queues, [])
             else (queues, fst (drain_advisory (topic_advisory env) True [0, 1, 2] []))))"

text \<open>
  What the two strategies yield together: the fallback runs only when the primary found
  nothing.
\<close>

definition discovered :: "discovery_env \<Rightarrow> string list \<times> string list" where
  "discovered env =
     (case primary_discovery env of
        (queues, topics) \<Rightarrow>
          if queues = [] \<and> topics = [] then fallback_discovery env else (queues, topics))"

text \<open>\<^verbatim>\<open>get_destinations()\<close>: the returned pair and the engine afterwards.\<close>

definition get_destinations ::
  "jvm_thread \<Rightarrow> discovery_env \<Rightarrow> (string list \<times> string list) \<times> jvm_thread"
where
  "get_destinations st env =
     (if not_connected st then (([], []), st)
      else
        (case discovered env of
           (queues, topics) \<Rightarrow>
             if queues \<noteq> [] \<or> topics \<noteq> [] then
               ((queues, topics),
                st\<lparr>cached_queues := Some queues, cached_topics := Some topics\<rparr>)
             else
               (case (cached_queues st, cached_topics st) of
                  (Some cq, Some ct) \<Rightarrow> ((cq, ct), st)
                | _ \<Rightarrow> (([], []), st\<lparr>cached_queues := Some [], cached_topics := Some []\<rparr>))))"

text \<open>
  A sequence of \<^verbatim>\<open>get_destinations()\<close> calls. Each call comes with the values
  \<^verbatim>\<open>self.connection\<close> and \<^verbatim>\<open>self.session\<close> have when it is made (connecting and
  disconnecting happen between calls) and with what the broker does. The results are
  listed in call order.
\<close>

type_synonym discover_call = "nat option \<times> nat option \<times> discovery_env"

fun discover_calls ::
  "jvm_thread \<Rightarrow> discover_call list \<Rightarrow> (string list \<times> string list) list \<times> jvm_thread"
where
  "discover_calls st [] = ([], st)"
| "discover_calls st ((c, s, env) # calls) =
     (case get_destinations (st\<lparr>connection := c, session := s\<rparr>) env of
        (r, st1) \<Rightarrow>
          (case discover_calls st1 calls of (rs, st2) \<Rightarrow> (r # rs, st2)))"

text \<open>
  The reading of the policy to compare with: the non-empty discoveries of the calls made
  while connected, in call order, and the most recent of them (empty lists when there is
  none).
\<close>

definition good_discoveries :: "discover_call list \<Rightarrow> (string list \<times> string list) list" where
  "good_discoveries calls =
     [discovered env. (c, s, env) \<leftarrow> calls, c \<noteq> None \<and> s \<noteq> None, discovered env \<noteq> ([], [])]"

definition latest :: "(string list \<times> string list) list \<Rightarrow> string list \<times> string list" where
  "latest history = (case rev history of [] \<Rightarrow> ([], []) | r # _ \<Rightarrow> r)"

definition last_good :: "discover_call list \<Rightarrow> string list \<times> string list" where
  "last_good calls = latest (good_discoveries calls)"

subsection \<open>Disconnecting: \<^verbatim>\<open>disconnect\<close>\<close>

text \<open>
  The \<^verbatim>\<open>try\<close> block of \<^verbatim>\<open>disconnect\<close>: the engine when the block is left, and the
  exception that ended it, if any. The two flags say whether \<^verbatim>\<open>session.close()\<close> and
  \<^verbatim>\<open>connection.close()\<close> raise. A handle is cleared by the statement after its close,
  so not when the close raises.
\<close>

definition disconnect_try :: "jvm_thread \<Rightarrow> bool \<Rightarrow> bool \<Rightarrow> py_exception option \<times> jvm_thread" where
  "disconnect_try st session_close_raises connection_close_raises =
     (if session st \<noteq> None \<and> session_close_raises then (Some JavaException, st)
      else
        (let st1 = (if session st \<noteq> None then st\<lparr>session := None\<rparr> else st)
         in if connection st1 \<noteq> None \<and> connection_close_raises then (Some JavaException, st1)
            else (None, if connection st1 \<noteq> None then st1\<lparr>connection := None\<rparr> else st1)))"

text \<open>
  \<^verbatim>\<open>disconnect()\<close>: the handler turns an exception into the return value
  \<^verbatim>\<open>False\<close>. The result is \<open>Inl\<close> if an exception leaves the method.
\<close>

definition disconnect :: "jvm_thread \<Rightarrow> bool \<Rightarrow> bool \<Rightarrow> (py_exception + bool) \<times> jvm_thread" where
  "disconnect st session_close_raises connection_close_raises =
     (case disconnect_try st session_close_raises connection_close_raises of
        (None, st1) \<Rightarrow> (Inr True, st1)
      | (Some e, st1) \<Rightarrow> (Inr False, st1))"

subsection \<open>Topic listeners: \<^verbatim>\<open>create_topic_message_listener\<close>\<close>

text \<open>
  The broker's side of the topic consumers: \<open>next_consumer\<close> is the handle the next
  created consumer gets (so it counts the consumers created), \<open>open_consumers\<close> lists
  the consumers created and not closed, with their topics.
\<close>

record broker =
  next_consumer :: nat
  open_consumers :: "(nat \<times> string) list"

record listener_env =
  createTopic_raises :: bool
  createConsumer_raises :: bool
  setMessageListener_raises :: bool

text \<open>
  \<^verbatim>\<open>create_topic_message_listener(topic_name)\<close>: the first component of the returned
  pair (the consumer, or \<^verbatim>\<open>None\<close>), the engine and the broker afterwards. There is no
  test whether \<^verbatim>\<open>topic_consumers\<close> already has the key: the new consumer is stored
  under it with \<^verbatim>\<open>self.topic_consumers[dest_key] = consumer\<close>.
\<close>

definition create_topic_message_listener ::
  "jvm_thread \<Rightarrow> broker \<Rightarrow> listener_env \<Rightarrow> string \<Rightarrow> nat option \<times> jvm_thread \<times> broker"
where
  "create_topic_message_listener st br env topic_name =
     (if not_connected st then (None, st, br)
      else if createTopic_raises env \<or> createConsumer_raises env then (None, st, br)
      else
        (let consumer = next_consumer br;
             br1 = br\<lparr>next_consumer := Suc consumer,
                      open_consumers := open_consumers br @ [(consumer, topic_name)]\<rparr>
         in if setMessageListener_raises env then (None, st, br1)
            else
              (Some consumer,
               st\<lparr>topic_consumers :=
                    AList.update (topic_key topic_name) consumer (topic_consumers st)\<rparr>,
               br1)))"


subsection \<open>Starting and stopping monitoring\<close>

text \<open>
  \<^verbatim>\<open>emergency_stop_monitoring()\<close>: every consumer of the table is closed (a raising
  close is passed over and leaves the consumer open), then the table, the monitored lists
  and the cache are emptied. The monitored lists are emptied by assigning new lists to the
  attributes, so a list that a caller still holds is not changed.
\<close>

definition emergency_stop_monitoring ::
  "jvm_thread \<Rightarrow> broker \<Rightarrow> (nat \<Rightarrow> bool) \<Rightarrow> jvm_thread \<times> broker"
where
  "emergency_stop_monitoring st br close_raises =
     (st\<lparr>monitor_running := False, topic_consumers := [],
         monitored_queues := [], monitored_topics := [], message_cache := Map.empty\<rparr>,
      br\<lparr>open_consumers :=
           filter (\<lambda>(h, t). \<not> (h \<in> snd ` set (topic_consumers st) \<and> \<not> close_raises h))
             (open_consumers br)\<rparr>)"

record monitor_env =
  consumer_close_raises :: "nat \<Rightarrow> bool"
  listener_envs :: "string \<Rightarrow> listener_env"

text \<open>The loop \<^verbatim>\<open>for topic in topics\<close> of \<^verbatim>\<open>monitor_all\<close>.\<close>

fun create_listeners ::
  "(string \<Rightarrow> listener_env) \<Rightarrow> string list \<Rightarrow> jvm_thread \<times> broker \<Rightarrow> jvm_thread \<times> broker"
where
  "create_listeners envs [] sb = sb"
| "create_listeners envs (topic # rest) sb =
     create_listeners envs rest
       (snd (create_topic_message_listener (fst sb) (snd sb) (envs topic) topic))"

text \<open>
  \<^verbatim>\<open>monitor_all(queues, topics)\<close> up to the start of the monitor thread. \<open>queues\<close> and
  \<open>topics\<close> are the contents of the lists passed in; they are copied into the attributes
  after the stop.
\<close>

definition monitor_all ::
  "jvm_thread \<Rightarrow> broker \<Rightarrow> monitor_env \<Rightarrow> string list \<Rightarrow> string list \<Rightarrow> jvm_thread \<times> broker"
where
  "monitor_all st br env queues topics =
     (case emergency_stop_monitoring st br (consumer_close_raises env) of
        (st1, br1) \<Rightarrow>
          if queues = [] \<and> topics = [] then (st1, br1)
          else
            (case create_listeners (listener_envs env) topics
                    (st1\<lparr>monitored_queues := queues, monitored_topics := topics,
                         message_cache := Map.empty\<rparr>, br1) of
               (st2, br2) \<Rightarrow> (st2\<lparr>monitor_running := True\<rparr>, br2)))"

text \<open>
  \<^verbatim>\<open>start_monitoring(destination_name, destination_type)\<close>. The attributes
  \<^verbatim>\<open>monitored_queues\<close> and \<^verbatim>\<open>monitored_topics\<close> exist since \<^verbatim>\<open>__init__\<close>. The name is
  appended to the list of its kind, and the two lists are passed to \<^verbatim>\<open>monitor_all\<close>.
\<close>

definition start_monitoring ::
  "jvm_thread \<Rightarrow> broker \<Rightarrow> monitor_env \<Rightarrow> string \<Rightarrow> string \<Rightarrow> jvm_thread \<times> broker"
where
  "start_monitoring st br env destination_name destination_type =
     (let st1 =
            (if destination_type = ''queue'' \<and> destination_name \<notin> set (monitored_queues st)
             then st\<lparr>monitored_queues := monitored_queues st @ [destination_name]\<rparr>
             else if destination_type = ''topic'' \<and> destination_name \<notin> set (monitored_topics st)
             then st\<lparr>monitored_topics := monitored_topics st @ [destination_name]\<rparr>
             else st)
      in monitor_all st1 br env (monitored_queues st1) (monitored_topics st1))"

text \<open>A sequence of \<^verbatim>\<open>start_monitoring\<close> calls, each with its name, kind and broker behaviour.\<close>

fun start_monitoring_calls ::
  "jvm_thread \<times> broker \<Rightarrow> (string \<times> string \<times> monitor_env) list \<Rightarrow> jvm_thread \<times> broker"
where
  "start_monitoring_calls sb [] = sb"
| "start_monitoring_calls sb ((name, kind, env) # calls) =
     start_monitoring_calls (start_monitoring (fst sb) (snd sb) env name kind) calls"

subsection \<open>Example inputs\<close>

text \<open>A connected engine, and messages of several kinds as the bridge presents them.\<close>

definition ex_connected :: jvm_thread where
  "ex_connected = jvm_thread_init\<lparr>connection := Some 1, session := Some 2\<rparr>"

definition ex_text_message :: "string \<Rightarrow> string \<Rightarrow> jms_message" where
  "ex_text_message mid txt =
     \<lparr>getJMSMessageID = Inr (Some mid), getPropertyNames = Inr [''color''],
      getStringProperty = (\<lambda>k. Inr (Some ''red'')),
      getClassName = Inr ''org.apache.activemq.command.ActiveMQTextMessage'',
      getText = Some (Inr (Some txt)), toString = Some (Inr (Some ''ActiveMQTextMessage {}'')),
      str_message = ''ActiveMQTextMessage {}'', getJMSTimestamp = Inr 1700000000000\<rparr>"

definition ex_map_message :: jms_message where
  "ex_map_message =
     \<lparr>getJMSMessageID = Inr (Some ''ID:map-1''), getPropertyNames = Inr [''color''],
      getStringProperty = (\<lambda>k. Inr (Some ''red'')),
      getClassName = Inr ''org.apache.activemq.command.ActiveMQMapMessage'',
      getText = None, toString = Some (Inr (Some ''ActiveMQMapMessage {}'')),
      str_message = ''ActiveMQMapMessage {}'', getJMSTimestamp = Inr 1700000000000\<rparr>"

text \<open>A message whose id cannot be read, and one whose property read raises.\<close>

definition ex_no_id_message :: jms_message where
  "ex_no_id_message = (ex_text_message ''ID:x'' ''hello'')\<lparr>getJMSMessageID := Inl JavaException\<rparr>"

definition ex_bad_property_message :: "string \<Rightarrow> jms_message" where
  "ex_bad_property_message mid =
     (ex_text_message mid ''three'')\<lparr>getStringProperty := (\<lambda>k. Inl JavaException)\<rparr>"

text \<open>A broker on which every call of a browse succeeds, with the given enumeration.\<close>

definition ex_browse :: "enum_step list \<Rightarrow> browse_env" where
  "ex_browse steps =
     \<lparr>createQueue_raises = False, createSession_raises = False,
      temp_createBrowser_raises = False, createBrowser_raises = False,
      getEnumeration = Inr steps, browser_close_raises = False,
      temp_session_close_raises = False\<rparr>"

text \<open>The record the topic callback builds for \<open>ex_map_message\<close> on the topic \<^verbatim>\<open>alerts\<close>.\<close>

definition ex_map_record :: message_info where
  "ex_map_record =
     \<lparr>id_info = ''ID:map-1'', body = ''ActiveMQMapMessage {}'', properties = [],
      destination = ''alerts'', type_info = ''topic'', message_type = ''text'',
      timestamp = 1700000000000\<rparr>"

text \<open>Five queued messages, the third of which raises when its property is read.\<close>

definition ex_five_messages :: "enum_step list" where
  "ex_five_messages =
     [Element (ex_text_message ''ID:1'' ''one''), Element (ex_text_message ''ID:2'' ''two''),
      Element (ex_bad_property_message ''ID:3''),
      Element (ex_text_message ''ID:4'' ''four''), Element (ex_text_message ''ID:5'' ''five'')]"

text \<open>
  Two readable messages, after which \<^verbatim>\<open>hasMoreElements()\<close> raises; and the same two
  messages, after which \<^verbatim>\<open>nextElement()\<close> raises.
\<close>

definition ex_has_more_raises :: "enum_step list" where
  "ex_has_more_raises =
     [Element (ex_text_message ''ID:1'' ''one''), Element (ex_text_message ''ID:2'' ''two''),
      HasMoreElementsRaises]"

definition ex_next_raises :: "enum_step list" where
  "ex_next_raises =
     [Element (ex_text_message ''ID:1'' ''one''), Element (ex_text_message ''ID:2'' ''two''),
      NextElementRaises]"

text \<open>
  The record \<^verbatim>\<open>browse_queue\<close> builds for \<open>ex_text_message\<close> in the queue \<^verbatim>\<open>Q1\<close>; an
  engine that monitors \<^verbatim>\<open>Q1\<close> and has two messages cached for it; the monitor thread's
  variables after it saw those two messages at time 100; and a broker on which every
  queue holds the given messages.
\<close>

definition ex_queue_record :: "string \<Rightarrow> string \<Rightarrow> message_info" where
  "ex_queue_record mid txt =
     \<lparr>id_info = mid, body = txt, properties = [(''color'', ''red'')], destination = ''Q1'',
      type_info = ''queue'', message_type = ''text'', timestamp = 1700000000000\<rparr>"

definition ex_monitoring :: jvm_thread where
  "ex_monitoring =
     ex_connected\<lparr>monitor_running := True, monitored_queues := [''Q1''],
       message_cache :=
         [queue_key ''Q1'' \<mapsto> [ex_queue_record ''ID:1'' ''one'', ex_queue_record ''ID:2'' ''two'']]\<rparr>"

definition ex_poll_state :: poll_state where
  "ex_poll_state =
     \<lparr>last_checks = [''Q1'' \<mapsto> 100], last_message_ids = [''Q1'' \<mapsto> {''ID:1'', ''ID:2''}]\<rparr>"

definition ex_queues_hold :: "enum_step list \<Rightarrow> string \<Rightarrow> browse_env" where
  "ex_queues_hold steps queue = ex_browse steps"

text \<open>Queue contents: only the first of the cached messages; the second and a new third.\<close>

definition ex_first_only :: "enum_step list" where
  "ex_first_only = [Element (ex_text_message ''ID:1'' ''one'')]"

definition ex_second_third :: "enum_step list" where
  "ex_second_third =
     [Element (ex_text_message ''ID:2'' ''two''), Element (ex_text_message ''ID:3'' ''three'')]"

subsection \<open>Notions used in the proofs about the poll loop\<close>

text \<open>
  What the poll of one queue reads and writes: the queue's cache entry, its tracked ids,
  its last check, and whether the engine is connected.
\<close>

definition queue_view ::
  "string \<Rightarrow> jvm_thread \<times> poll_state \<times> bool
     \<Rightarrow> message_info list option \<times> string set option \<times> real option \<times> bool"
where
  "queue_view q = (\<lambda>(st, ps, fl).
     (message_cache st (queue_key q), last_message_ids ps q, last_checks ps q,
      not_connected st))"

text \<open>The cache entry and the tracked ids of a queue after a poll that browsed \<open>messages\<close>.\<close>

definition poll_outcome ::
  "message_info list \<Rightarrow> message_info list option \<Rightarrow> string set option
     \<Rightarrow> message_info list option \<times> string set option"
where
  "poll_outcome messages entry seen =
     (if messages \<noteq> [] \<and>
         (case seen of None \<Rightarrow> False | Some ids \<Rightarrow> set (map id_info messages) - ids \<noteq> {})
      then Some messages else entry,
      if messages \<noteq> [] then Some (set (map id_info messages)) else seen)"

subsection \<open>Notions used in the proofs about discovery\<close>

text \<open>
  The attributes \<^verbatim>\<open>_cached_queues\<close> and \<^verbatim>\<open>_cached_topics\<close> follow a history of
  non-empty discoveries: they are both absent and the history is empty, or both present
  and hold the latest discovery of the history.
\<close>

definition cache_tracks :: "(string list \<times> string list) list \<Rightarrow> jvm_thread \<Rightarrow> bool" where
  "cache_tracks history st =
     (case (cached_queues st, cached_topics st) of
        (Some cq, Some ct) \<Rightarrow> (cq, ct) = latest history
      | (None, None) \<Rightarrow> history = []
      | _ \<Rightarrow> False)"

text \<open>
  A broker whose destination listing holds the given queues and topics and whose advisory
  topics deliver nothing.
\<close>

definition ex_advisory_silent :: advisory_env where
  "ex_advisory_silent =
     \<lparr>createConsumer_adv_raises = False, receive_adv = (\<lambda>i. Inr None),
      close_adv_raises = False\<rparr>"

definition ex_discovery :: "string list \<Rightarrow> string list \<Rightarrow> discovery_env" where
  "ex_discovery queue_names topic_names =
     \<lparr>has_getDestinationSource = True, getDestinationSource_raises = False,
      getQueues = Inr (map (\<lambda>n. QueueName (Inr (Some n))) queue_names),
      getTopics = Inr topic_names,
      queue_advisory = ex_advisory_silent, topic_advisory = ex_advisory_silent\<rparr>"

text \<open>
  Two earlier calls: one made while connected that finds the queue \<^verbatim>\<open>orders\<close>, then
  one made while disconnected.
\<close>

definition ex_discover_calls :: "discover_call list" where
  "ex_discover_calls =
     [(Some 1, Some 2, ex_discovery [''orders''] []),
      (None, None, ex_discovery [''billing''] [])]"

text \<open>
  A broker without consumers, on which creating a listener succeeds and closing a consumer
  succeeds; the result of a first \<^verbatim>\<open>create_topic_message_listener("alerts")\<close> on the
  connected engine.
\<close>

definition ex_broker :: broker where
  "ex_broker = \<lparr>next_consumer = 0, open_consumers = []\<rparr>"

definition ex_listener_ok :: listener_env where
  "ex_listener_ok =
     \<lparr>createTopic_raises = False, createConsumer_raises = False,
      setMessageListener_raises = False\<rparr>"

definition ex_monitor_env :: monitor_env where
  "ex_monitor_env =
     \<lparr>consumer_close_raises = (\<lambda>h. False), listener_envs = (\<lambda>t. ex_listener_ok)\<rparr>"


text \<open>The scenario \<^verbatim>\<open>start_monitoring("Q1", "queue")\<close>, \<^verbatim>\<open>start_monitoring("Q2", "queue")\<close>.\<close>

definition ex_two_starts :: "(string \<times> string \<times> monitor_env) list" where
  "ex_two_starts = [(''Q1'', ''queue'', ex_monitor_env), (''Q2'', ''queue'', ex_monitor_env)]"

section \<open>Verified properties\<close>

subsection \<open>The topic push callback\<close>

lemma cache_entry_on_topic_message:
  "cache_entry (on_topic_message (Some m) t st) (topic_key t) =
     cache_entry st (topic_key t) @
       (case topic_message_info m t of Inl e \<Rightarrow> [] | Inr info \<Rightarrow> [info])"
  by (auto simp: on_topic_message_def cache_entry_def Let_def split: option.splits sum.splits)

lemma cache_on_topic_message_other:
  "k \<noteq> topic_key t \<Longrightarrow> message_cache (on_topic_message msg t st) k = message_cache st k"
  by (auto simp: on_topic_message_def Let_def split: option.splits sum.splits)

lemma topic_message_info_Inr:
  "getJMSMessageID m = Inr mid \<Longrightarrow> getJMSTimestamp m = Inr ts \<Longrightarrow>
     \<exists>info. topic_message_info m t = Inr info \<and> id_info info = py_str mid"
  by (simp add: topic_message_info_def Let_def)

lemma topic_message_info_Inl:
  "getJMSMessageID m = Inl e \<or> getJMSTimestamp m = Inl e \<Longrightarrow>
     \<exists>e'. topic_message_info m t = Inl e'"
  by (auto simp add: topic_message_info_def Let_def split: sum.splits)

lemma topic_message_info_fields:
  "topic_message_info m t = Inr info \<Longrightarrow> properties info = [] \<and> message_type info = ''text''"
  by (auto simp add: topic_message_info_def Let_def split: sum.splits)

text \<open>
  C3, as stated, fails: a callback with a non-null message whose id cannot be read appends
  nothing. The handler of \<^verbatim>\<open>_on_topic_message\<close> catches the exception of
  \<^verbatim>\<open>getJMSMessageID\<close> before the append is reached.
\<close>

theorem on_topic_message_counterexample:
  "length (cache_entry (on_topic_message (Some ex_no_id_message) ''alerts'' ex_connected)
             (topic_key ''alerts''))
     \<noteq> Suc (length (cache_entry ex_connected (topic_key ''alerts'')))"
  by (simp add: on_topic_message_def topic_message_info_def ex_no_id_message_def
      ex_text_message_def)

text \<open>
  C3, amended: a topic push callback with a non-null message whose id and timestamp can be
  read appends exactly one record, carrying that id, to the end of the topic's cache entry
  and removes nothing, whether or not the id is already in the entry; a callback whose id
  or timestamp read raises leaves the engine unchanged; no callback changes the entry of
  another key.
\<close>

theorem on_topic_message_append_only:
  "(getJMSMessageID m = Inr mid \<and> getJMSTimestamp m = Inr ts \<longrightarrow>
      (\<exists>info. id_info info = py_str mid \<and>
         cache_entry (on_topic_message (Some m) t st) (topic_key t) =
           cache_entry st (topic_key t) @ [info]))
   \<and> ((\<exists>e. getJMSMessageID m = Inl e) \<or> (\<exists>e. getJMSTimestamp m = Inl e) \<longrightarrow>
        on_topic_message (Some m) t st = st)
   \<and> (k \<noteq> topic_key t \<longrightarrow>
        message_cache (on_topic_message (Some m) t st) k = message_cache st k)"
proof (intro conjI impI)
  assume "getJMSMessageID m = Inr mid \<and> getJMSTimestamp m = Inr ts"
  then obtain info where "topic_message_info m t = Inr info" "id_info info = py_str mid"
    using topic_message_info_Inr by blast
  then show "\<exists>info. id_info info = py_str mid \<and>
         cache_entry (on_topic_message (Some m) t st) (topic_key t) =
           cache_entry st (topic_key t) @ [info]"
    by (simp add: cache_entry_on_topic_message)
next
  assume "(\<exists>e. getJMSMessageID m = Inl e) \<or> (\<exists>e. getJMSTimestamp m = Inl e)"
  then obtain e' where "topic_message_info m t = Inl e'"
    using topic_message_info_Inl by blast
  then show "on_topic_message (Some m) t st = st"
    by (simp add: on_topic_message_def)
next
  assume "k \<noteq> topic_key t"
  then show "message_cache (on_topic_message (Some m) t st) k = message_cache st k"
    by (rule cache_on_topic_message_other)
qed

text \<open>
  The amended C3 on concrete input: the same message delivered twice gives an entry with
  the id twice; the message with the unreadable id changes nothing.
\<close>

theorem on_topic_message_append_only_witness:
  "getJMSMessageID (ex_text_message ''ID:7'' ''hello'') = Inr (Some ''ID:7'')
   \<and> getJMSTimestamp (ex_text_message ''ID:7'' ''hello'') = Inr 1700000000000
   \<and> map id_info (cache_entry
        (on_topic_message (Some (ex_text_message ''ID:7'' ''hello'')) ''alerts''
          (on_topic_message (Some (ex_text_message ''ID:7'' ''hello'')) ''alerts''
             ex_connected))
        (topic_key ''alerts'')) = [''ID:7'', ''ID:7'']
   \<and> getJMSMessageID ex_no_id_message = Inl JavaException
   \<and> on_topic_message (Some ex_no_id_message) ''alerts'' ex_connected = ex_connected"
  using on_topic_message_append_only
          [of "ex_text_message ''ID:7'' ''hello''" "Some ''ID:7''" 1700000000000 "''alerts''"
              ex_connected "queue_key ''Q1''"]
        on_topic_message_append_only
          [of ex_no_id_message None 0 "''alerts''" ex_connected "queue_key ''Q1''"]
  by (simp add: ex_text_message_def ex_no_id_message_def topic_message_info_def py_str_def
      cache_entry_def ex_connected_def jvm_thread_init_def topic_key_def queue_key_def
      on_topic_message_def Let_def)

text \<open>
  C10: every record that a topic push callback adds to a cache entry has an empty
  properties map and message_type \<^verbatim>\<open>text\<close>, whatever the delivered message's class and
  broker properties are.
\<close>

theorem topic_records_have_no_properties:
  "r \<in> set (cache_entry (on_topic_message msg t st) k) \<Longrightarrow> r \<notin> set (cache_entry st k) \<Longrightarrow>
     properties r = [] \<and> message_type r = ''text''"
proof (cases msg)
  case None
  assume "r \<in> set (cache_entry (on_topic_message msg t st) k)" "r \<notin> set (cache_entry st k)"
  with None show ?thesis by (simp add: on_topic_message_def)
next
  case (Some m)
  assume a: "r \<in> set (cache_entry (on_topic_message msg t st) k)" "r \<notin> set (cache_entry st k)"
  show ?thesis
  proof (cases "k = topic_key t")
    case True
    with a Some
    have "r \<in> set (case topic_message_info m t of Inl e \<Rightarrow> [] | Inr info \<Rightarrow> [info])"
      by (simp add: cache_entry_on_topic_message)
    then have "topic_message_info m t = Inr r"
      by (auto split: sum.splits)
    then show ?thesis by (rule topic_message_info_fields)
  next
    case False
    then have "cache_entry (on_topic_message msg t st) k = cache_entry st k"
      by (simp add: cache_entry_def cache_on_topic_message_other)
    with a show ?thesis by simp
  qed
qed

text \<open>
  C10 on concrete input: a map message with the broker property \<^verbatim>\<open>color\<close> arrives on a
  topic and is recorded without properties and as \<^verbatim>\<open>text\<close>; browsing the same message
  in a queue keeps the property.
\<close>

theorem topic_records_have_no_properties_witness:
  "ex_map_record \<in> set (cache_entry (on_topic_message (Some ex_map_message) ''alerts'' ex_connected)
                          (topic_key ''alerts''))
   \<and> ex_map_record \<notin> set (cache_entry ex_connected (topic_key ''alerts''))
   \<and> getPropertyNames ex_map_message = Inr [''color'']
   \<and> properties ex_map_record = [] \<and> message_type ex_map_record = ''text''
   \<and> map properties
        (fst (browse_queue ex_connected (ex_browse [Element ex_map_message]) ''Q1''
                False True True)) = [[(''color'', ''red'')]]"
proof -
  have a: "ex_map_record \<in> set (cache_entry
             (on_topic_message (Some ex_map_message) ''alerts'' ex_connected)
             (topic_key ''alerts''))"
    by (simp add: ex_map_record_def ex_map_message_def on_topic_message_def Let_def
        topic_key_def topic_message_info_def py_str_def cache_entry_def ex_connected_def
        jvm_thread_init_def)
  have b: "ex_map_record \<notin> set (cache_entry ex_connected (topic_key ''alerts''))"
    by (simp add: cache_entry_def ex_connected_def jvm_thread_init_def)
  have c: "map properties
             (fst (browse_queue ex_connected (ex_browse [Element ex_map_message]) ''Q1''
                     False True True)) = [[(''color'', ''red'')]]"
    by (simp add: browse_queue_def not_connected_def ex_connected_def jvm_thread_init_def
        ex_browse_def open_browser_def queue_message_info_def ex_map_message_def py_str_def)
  show ?thesis
    using a b c topic_records_have_no_properties [OF a b]
    by (simp add: ex_map_message_def)
qed

subsection \<open>Browsing a queue\<close>

lemma browse_loop_raise:
  "browse_loop q (xs @ NextElementRaises # ys) acc = browse_loop q xs acc"
  by (induction q xs acc rule: browse_loop.induct) (auto split: sum.splits)

lemma browse_loop_skip:
  "queue_message_info m q = Inl e \<Longrightarrow>
     browse_loop q (xs @ Element m # ys) acc = browse_loop q (xs @ ys) acc"
  by (induction q xs acc rule: browse_loop.induct) (auto split: sum.splits)

lemma browse_queue_messages:
  "\<not> not_connected st \<Longrightarrow> \<not> createQueue_raises env \<Longrightarrow> fst (open_browser env f) \<Longrightarrow>
     getEnumeration env = Inr steps \<Longrightarrow>
     fst (browse_queue st env q u a f) =
       (case browse_loop q steps [] of Inl e \<Rightarrow> [] | Inr messages \<Rightarrow> messages)"
  by (auto simp: browse_queue_def split: prod.splits sum.splits)








text \<open>
  The parts of the tolerance of \<^verbatim>\<open>browse_queue\<close> that hold: a browse while not
  connected returns the empty list and makes no broker call; in the scan a message whose
  extraction raises is skipped as if it were not there, and a raising \<^verbatim>\<open>nextElement()\<close>
  ends the scan with the messages collected before it.
\<close>

lemma browse_queue_not_connected:
  "not_connected st \<Longrightarrow> browse_queue st env q u a f = ([], [])"
  by (simp add: browse_queue_def)

lemma browse_queue_tolerant_scan:
  "(queue_message_info m q = Inl e \<longrightarrow>
      browse_loop q (xs @ Element m # ys) [] = browse_loop q (xs @ ys) [])
   \<and> browse_loop q (xs @ NextElementRaises # ys) [] = browse_loop q xs []"
  by (simp add: browse_loop_raise browse_loop_skip)

lemma ex_five_messages_browsed:
  "queue_message_info (ex_bad_property_message ''ID:3'') ''Q1'' = Inl JavaException
   \<and> map id_info
       (fst (browse_queue ex_connected (ex_browse ex_five_messages) ''Q1'' False True True))
       = [''ID:1'', ''ID:2'', ''ID:4'', ''ID:5'']"
  by (simp add: ex_five_messages_def browse_queue_def not_connected_def ex_connected_def
      jvm_thread_init_def ex_browse_def open_browser_def queue_message_info_def
      ex_text_message_def ex_bad_property_message_def py_str_def)

text \<open>
  C7 does not hold of the code for one kind of enumeration failure. The loop condition
  \<^verbatim>\<open>message_enum.hasMoreElements()\<close> is evaluated outside the \<^verbatim>\<open>try\<close> whose handler
  is \<^verbatim>\<open>break\<close>, so when it raises after two messages were collected, the outer handler
  returns the empty list and the two messages are lost. When \<^verbatim>\<open>nextElement()\<close> raises
  at the same point, the two messages are returned, as C7 says.
\<close>

theorem browse_queue_has_more_raises:
  "fst (browse_queue ex_connected (ex_browse ex_has_more_raises) ''Q1'' False True True) = []
   \<and> map id_info
       (fst (browse_queue ex_connected (ex_browse ex_next_raises) ''Q1'' False True True))
       = [''ID:1'', ''ID:2'']"
  by (simp add: ex_has_more_raises_def ex_next_raises_def browse_queue_def not_connected_def
      ex_connected_def jvm_thread_init_def ex_browse_def open_browser_def
      queue_message_info_def ex_text_message_def py_str_def)

subsection \<open>The poll loop\<close>

lemma queue_key_inj: "queue_key a = queue_key b \<longleftrightarrow> a = b"
  by (simp add: queue_key_def)

lemma browse_queue_cache_irrelevant:
  "not_connected st = not_connected st' \<Longrightarrow>
     browse_queue st env q u a f = browse_queue st' env q u a f"
  by (simp add: browse_queue_def)

lemma poll_queue_other:
  "q' \<noteq> q \<Longrightarrow> queue_view q (poll_queue envs now q' s) = queue_view q s"
  by (cases s)
     (auto simp: poll_queue_def queue_view_def Let_def queue_key_inj not_connected_def
        split: option.splits)

lemma poll_queue_done:
  "last_checks (fst (snd s)) q = Some now \<Longrightarrow> poll_queue envs now q s = s"
  by (cases s) (simp add: poll_queue_def)

lemma poll_queue_self:
  "\<not> now - (case last_checks ps q of None \<Rightarrow> 0 | Some t \<Rightarrow> t) < 1 \<Longrightarrow>
   queue_view q (poll_queue envs now q (st, ps, fl)) =
     (fst (poll_outcome (fst (browse_queue st (envs q) q False True True))
             (message_cache st (queue_key q)) (last_message_ids ps q)),
      snd (poll_outcome (fst (browse_queue st (envs q) q False True True))
             (message_cache st (queue_key q)) (last_message_ids ps q)),
      Some now, not_connected st)"
  by (simp add: poll_queue_def queue_view_def Let_def poll_outcome_def not_connected_def
      split: option.splits)

lemma fold_poll_stable:
  "q \<notin> set qs \<or> last_checks (fst (snd s)) q = Some now \<Longrightarrow>
     queue_view q (fold (poll_queue envs now) qs s) = queue_view q s"
proof (induction qs arbitrary: s)
  case Nil
  then show ?case by simp
next
  case (Cons a qs)
  show ?case
  proof (cases "a = q")
    case True
    with Cons.prems have d: "last_checks (fst (snd s)) q = Some now" by simp
    then have "poll_queue envs now a s = s" using True by (simp add: poll_queue_done)
    with Cons.IH [of s] d show ?thesis by simp
  next
    case False
    then have v: "queue_view q (poll_queue envs now a s) = queue_view q s"
      by (simp add: poll_queue_other)
    have "q \<notin> set qs \<or> last_checks (fst (snd (poll_queue envs now a s))) q = Some now"
    proof (cases "q \<in> set qs")
      case True
      with Cons.prems have "last_checks (fst (snd s)) q = Some now" by simp
      with v show ?thesis by (cases s; cases "poll_queue envs now a s") (simp add: queue_view_def)
    next
      case False
      then show ?thesis by simp
    qed
    from Cons.IH [OF this] v show ?thesis by simp
  qed
qed


lemma fold_poll_first:
  "q \<in> set qs \<Longrightarrow> \<not> now - (case last_checks ps q of None \<Rightarrow> 0 | Some t \<Rightarrow> t) < 1 \<Longrightarrow>
     queue_view q (fold (poll_queue envs now) qs (st, ps, fl)) =
     queue_view q (poll_queue envs now q (st, ps, fl))"
proof (induction qs arbitrary: st ps fl)
  case Nil
  then show ?case by simp
next
  case (Cons a qs)
  show ?case
  proof (cases "a = q")
    case True
    have "last_checks (fst (snd (poll_queue envs now q (st, ps, fl)))) q = Some now"
      using poll_queue_self [OF Cons.prems(2), of envs st fl]
      by (cases "poll_queue envs now q (st, ps, fl)") (simp add: queue_view_def)
    then show ?thesis
      using True fold_poll_stable [of q qs "poll_queue envs now q (st, ps, fl)" now envs]
      by simp
  next
    case False
    obtain st1 ps1 fl1 where s1: "poll_queue envs now a (st, ps, fl) = (st1, ps1, fl1)"
      by (cases "poll_queue envs now a (st, ps, fl)")
    from False have v: "queue_view q (st1, ps1, fl1) = queue_view q (st, ps, fl)"
      using poll_queue_other [of a q envs now "(st, ps, fl)"] s1 by simp
    then have e: "message_cache st1 (queue_key q) = message_cache st (queue_key q)"
      "last_message_ids ps1 q = last_message_ids ps q"
      "last_checks ps1 q = last_checks ps q" "not_connected st1 = not_connected st"
      by (simp_all add: queue_view_def)
    from False Cons.prems(1) have m: "q \<in> set qs" by simp
    from Cons.prems(2) e(3)
    have d: "\<not> now - (case last_checks ps1 q of None \<Rightarrow> 0 | Some t \<Rightarrow> t) < 1" by simp
    have b: "browse_queue st1 (envs q) q False True True =
               browse_queue st (envs q) q False True True"
      using e(4) by (rule browse_queue_cache_irrelevant)
    have "queue_view q (poll_queue envs now q (st1, ps1, fl1)) =
          queue_view q (poll_queue envs now q (st, ps, fl))"
      by (simp only: poll_queue_self [OF d] poll_queue_self [OF Cons.prems(2)] e b)
    with Cons.IH [OF m d, of st1 fl1] s1 show ?thesis by simp
  qed
qed

lemma poll_tick_view:
  assumes "polled now st ps q"
  shows "queue_view q (poll_tick envs now st ps) =
     (fst (poll_outcome (fst (browse_queue st (envs q) q False True True))
             (message_cache st (queue_key q)) (last_message_ids ps q)),
      snd (poll_outcome (fst (browse_queue st (envs q) q False True True))
             (message_cache st (queue_key q)) (last_message_ids ps q)),
      Some now, not_connected st)"
  using assms fold_poll_first [of q "monitored_queues st" now ps envs st False]
  by (simp add: polled_def poll_tick_def poll_queue_self)

lemma ex_polled: "polled 102 ex_monitoring ex_poll_state ''Q1''"
  by (simp add: polled_def ex_monitoring_def ex_poll_state_def)

lemma ex_browse_eval:
  "fst (browse_queue ex_monitoring (ex_queues_hold steps ''Q1'') ''Q1'' False True True) =
     (case browse_loop ''Q1'' steps [] of Inl e \<Rightarrow> [] | Inr messages \<Rightarrow> messages)"
  by (simp add: browse_queue_def not_connected_def ex_monitoring_def ex_connected_def
      jvm_thread_init_def ex_queues_hold_def ex_browse_def open_browser_def
      split: sum.splits)

lemma ex_info:
  "queue_message_info (ex_text_message mid txt) ''Q1'' = Inr (ex_queue_record mid txt)"
  by (simp add: queue_message_info_def ex_text_message_def ex_queue_record_def py_str_def
      queue_body_def startswith_def)

text \<open>
  C1, as stated, fails: the tick re-browses \<^verbatim>\<open>Q1\<close>, whose cache entry holds two
  messages. When the browse returns the empty list, and when it returns only the first of
  the two messages (no id that was not seen before), the cache entry keeps both messages
  and so differs from the browse result.
\<close>

theorem poll_tick_cache_counterexample:
  "polled 102 ex_monitoring ex_poll_state ''Q1''
   \<and> message_cache (fst (poll_tick (ex_queues_hold []) 102 ex_monitoring ex_poll_state))
         (queue_key ''Q1'')
       \<noteq> Some (fst (browse_queue ex_monitoring (ex_queues_hold [] ''Q1'') ''Q1''
                      False True True))
   \<and> fst (browse_queue ex_monitoring (ex_queues_hold [] ''Q1'') ''Q1'' False True True) = []
   \<and> message_cache (fst (poll_tick (ex_queues_hold []) 102 ex_monitoring ex_poll_state))
         (queue_key ''Q1'')
       = Some [ex_queue_record ''ID:1'' ''one'', ex_queue_record ''ID:2'' ''two'']
   \<and> fst (browse_queue ex_monitoring (ex_queues_hold ex_first_only ''Q1'') ''Q1''
            False True True)
       = [ex_queue_record ''ID:1'' ''one'']
   \<and> message_cache
         (fst (poll_tick (ex_queues_hold ex_first_only) 102 ex_monitoring ex_poll_state))
         (queue_key ''Q1'')
       = Some [ex_queue_record ''ID:1'' ''one'', ex_queue_record ''ID:2'' ''two'']"
  using poll_tick_view [OF ex_polled, of "ex_queues_hold []"]
    poll_tick_view [OF ex_polled, of "ex_queues_hold ex_first_only"]
  by (simp add: ex_polled ex_browse_eval ex_info ex_first_only_def queue_view_def split_def
      poll_outcome_def)
     (simp add: ex_monitoring_def ex_poll_state_def ex_queue_record_def)

text \<open>
  C1, amended: in a tick that re-browses a monitored queue, the queue's cache entry is
  replaced by exactly the message list of that browse (wholesale, not merged) when the
  list is non-empty and holds an id that is not among the ids tracked for the queue;
  when the list is empty or holds no such id, the cache entry is left as it was.
\<close>

theorem poll_tick_cache:
  "polled now st ps q \<Longrightarrow>
     message_cache (fst (poll_tick envs now st ps)) (queue_key q) =
       (if fst (browse_queue st (envs q) q False True True) \<noteq> [] \<and>
           (\<exists>seen. last_message_ids ps q = Some seen \<and>
              set (map id_info (fst (browse_queue st (envs q) q False True True))) - seen
                \<noteq> {})
        then Some (fst (browse_queue st (envs q) q False True True))
        else message_cache st (queue_key q))"
  using poll_tick_view [of now st ps q envs]
  by (cases "poll_tick envs now st ps")
     (auto simp: queue_view_def poll_outcome_def split: option.splits)

text \<open>
  The amended C1 on concrete input: the cache holds the messages 1 and 2, the browse
  returns the messages 2 and 3, and the entry becomes exactly the messages 2 and 3.
\<close>

theorem poll_tick_cache_witness:
  "polled 102 ex_monitoring ex_poll_state ''Q1''
   \<and> fst (browse_queue ex_monitoring (ex_queues_hold ex_second_third ''Q1'') ''Q1''
            False True True)
       = [ex_queue_record ''ID:2'' ''two'', ex_queue_record ''ID:3'' ''three'']
   \<and> message_cache
         (fst (poll_tick (ex_queues_hold ex_second_third) 102 ex_monitoring ex_poll_state))
         (queue_key ''Q1'')
       = Some [ex_queue_record ''ID:2'' ''two'', ex_queue_record ''ID:3'' ''three'']"
  using poll_tick_cache [OF ex_polled, of "ex_queues_hold ex_second_third"]
  by (simp add: ex_polled ex_browse_eval ex_info ex_second_third_def)
     (simp add: ex_monitoring_def ex_poll_state_def ex_queue_record_def)

text \<open>
  C4, as stated, fails: when the browse of a polled queue returns the empty list, the ids
  tracked for the queue stay the two ids seen before and do not become the empty id set
  of that browse.
\<close>

theorem poll_tick_last_ids_counterexample:
  "polled 102 ex_monitoring ex_poll_state ''Q1''
   \<and> last_message_ids
         (fst (snd (poll_tick (ex_queues_hold []) 102 ex_monitoring ex_poll_state))) ''Q1''
       \<noteq> Some (set (map id_info
            (fst (browse_queue ex_monitoring (ex_queues_hold [] ''Q1'') ''Q1''
                    False True True))))
   \<and> fst (browse_queue ex_monitoring (ex_queues_hold [] ''Q1'') ''Q1'' False True True) = []
   \<and> last_message_ids
         (fst (snd (poll_tick (ex_queues_hold []) 102 ex_monitoring ex_poll_state))) ''Q1''
       = Some {''ID:1'', ''ID:2''}"
  using poll_tick_view [OF ex_polled, of "ex_queues_hold []"]
  by (simp add: ex_polled ex_browse_eval ex_info queue_view_def split_def poll_outcome_def)
     (simp add: ex_monitoring_def ex_poll_state_def ex_queue_record_def)

text \<open>
  C4, amended: after a poll of a monitored queue whose browse result is non-empty, the ids
  tracked for the queue are the id set of that browse result, whether or not the poll
  found new ids; after a poll whose browse result is empty, the tracked ids are left as
  they were.
\<close>

theorem poll_tick_last_ids:
  "polled now st ps q \<Longrightarrow>
     last_message_ids (fst (snd (poll_tick envs now st ps))) q =
       (if fst (browse_queue st (envs q) q False True True) \<noteq> []
        then Some (set (map id_info (fst (browse_queue st (envs q) q False True True))))
        else last_message_ids ps q)"
  using poll_tick_view [of now st ps q envs]
  by (cases "poll_tick envs now st ps")
     (auto simp: queue_view_def poll_outcome_def split: option.splits)

text \<open>
  The amended C4 on concrete input: the tracked ids are 1 and 2, the browse returns only
  message 1 (no new id), and the tracked ids become exactly the id 1.
\<close>

theorem poll_tick_last_ids_witness:
  "polled 102 ex_monitoring ex_poll_state ''Q1''
   \<and> fst (browse_queue ex_monitoring (ex_queues_hold ex_first_only ''Q1'') ''Q1''
            False True True)
       = [ex_queue_record ''ID:1'' ''one'']
   \<and> last_message_ids
         (fst (snd (poll_tick (ex_queues_hold ex_first_only) 102 ex_monitoring ex_poll_state)))
         ''Q1''
       = Some {''ID:1''}"
  using poll_tick_last_ids [OF ex_polled, of "ex_queues_hold ex_first_only"]
  by (simp add: ex_polled ex_browse_eval ex_info ex_first_only_def)
     (simp add: ex_queue_record_def)

subsection \<open>Destination discovery\<close>

lemma latest_snoc: "latest (h @ [r]) = r"
  by (simp add: latest_def)

lemma get_destinations_step:
  assumes "cache_tracks history st"
  shows "cache_tracks
           (history @ (if c \<noteq> None \<and> s \<noteq> None \<and> discovered env \<noteq> ([], [])
                       then [discovered env] else []))
           (snd (get_destinations (st\<lparr>connection := c, session := s\<rparr>) env))
         \<and> (c \<noteq> None \<and> s \<noteq> None \<longrightarrow>
              fst (get_destinations (st\<lparr>connection := c, session := s\<rparr>) env) =
                (if discovered env \<noteq> ([], []) then discovered env else latest history))"
proof (cases "c \<noteq> None \<and> s \<noteq> None")
  case False
  then have "get_destinations (st\<lparr>connection := c, session := s\<rparr>) env =
               (([], []), st\<lparr>connection := c, session := s\<rparr>)"
    by (auto simp: get_destinations_def not_connected_def)
  moreover have "(if c \<noteq> None \<and> s \<noteq> None \<and> discovered env \<noteq> ([], [])
                       then [discovered env] else []) = []"
    using False by auto
  moreover have "cache_tracks history (st\<lparr>connection := c, session := s\<rparr>)"
    using assms by (simp add: cache_tracks_def)
  ultimately show ?thesis using False by auto
next
  case True
  then have nc: "\<not> not_connected (st\<lparr>connection := c, session := s\<rparr>)"
    by (simp add: not_connected_def)
  obtain qs ts where d: "discovered env = (qs, ts)" by (cases "discovered env")
  show ?thesis
  proof (cases "qs \<noteq> [] \<or> ts \<noteq> []")
    case ne: True
    then show ?thesis using True nc d
      by (auto simp: get_destinations_def cache_tracks_def latest_snoc)
  next
    case False
    then show ?thesis using True nc d assms
      by (auto simp: get_destinations_def cache_tracks_def latest_def split: option.splits)
  qed
qed

lemma good_discoveries_Cons:
  "good_discoveries ((c, s, env) # calls) =
     (if c \<noteq> None \<and> s \<noteq> None \<and> discovered env \<noteq> ([], []) then [discovered env] else [])
       @ good_discoveries calls"
  by (simp add: good_discoveries_def)

lemma snd_discover_calls_Cons:
  "snd (discover_calls st ((c, s, env) # calls)) =
     snd (discover_calls (snd (get_destinations (st\<lparr>connection := c, session := s\<rparr>) env)) calls)"
  by (simp add: split_def)

lemma discover_calls_tracks:
  "cache_tracks history st \<Longrightarrow>
     cache_tracks (history @ good_discoveries calls) (snd (discover_calls st calls))"
proof (induction calls arbitrary: history st)
  case Nil
  then show ?case by (simp add: good_discoveries_def)
next
  case (Cons call calls)
  obtain c s env where call: "call = (c, s, env)" by (cases call)
  let ?st1 = "snd (get_destinations (st\<lparr>connection := c, session := s\<rparr>) env)"
  let ?h1 = "history @ (if c \<noteq> None \<and> s \<noteq> None \<and> discovered env \<noteq> ([], [])
                       then [discovered env] else [])"
  have "cache_tracks ?h1 ?st1"
    using get_destinations_step [OF Cons.prems] by blast
  from Cons.IH [OF this]
  show ?case
    by (simp only: call snd_discover_calls_Cons good_discoveries_Cons append_assoc)
qed

lemma ex_discovered_orders: "discovered (ex_discovery [''orders''] []) = ([''orders''], [])"
  by (simp add: discovered_def primary_discovery_def ex_discovery_def py_str_def)

lemma ex_discovered_nothing: "discovered (ex_discovery [] []) = ([], [])"
  by (simp add: discovered_def primary_discovery_def fallback_discovery_def ex_discovery_def
      ex_advisory_silent_def)

lemma good_discoveries_nonempty: "r \<in> set (good_discoveries calls) \<Longrightarrow> r \<noteq> ([], [])"
  by (auto simp: good_discoveries_def)

lemma latest_in_set: "history \<noteq> [] \<Longrightarrow> latest history \<in> set history"
  by (cases history rule: rev_cases) (simp_all add: latest_def)

lemma last_good_empty: "last_good calls = ([], []) \<longleftrightarrow> good_discoveries calls = []"
proof
  assume a: "last_good calls = ([], [])"
  show "good_discoveries calls = []"
  proof (rule ccontr)
    assume "good_discoveries calls \<noteq> []"
    then have "latest (good_discoveries calls) \<in> set (good_discoveries calls)"
      by (rule latest_in_set)
    then have "last_good calls \<noteq> ([], [])"
      using good_discoveries_nonempty by (simp add: last_good_def)
    with a show False by simp
  qed
next
  assume "good_discoveries calls = []"
  then show "last_good calls = ([], [])"
    by (simp add: last_good_def latest_def)
qed

text \<open>
  C5: take any sequence of \<^verbatim>\<open>get_destinations()\<close> calls on an engine that has not
  discovered anything yet, and one more call made while connected. If the two strategies
  yield something in that call, it returns what they yield and overwrites the cached
  lists with it. If they yield nothing, it returns the most recent non-empty discovery of
  the earlier calls made while connected, and empty lists only when there is none.
\<close>

theorem get_destinations_last_good:
  assumes "cached_queues st = None" and "cached_topics st = None"
    and "c \<noteq> None" and "s \<noteq> None"
  shows "fst (get_destinations
                (snd (discover_calls st calls)\<lparr>connection := c, session := s\<rparr>) env) =
           (if discovered env \<noteq> ([], []) then discovered env else last_good calls)
         \<and> (last_good calls = ([], []) \<longleftrightarrow> good_discoveries calls = [])
         \<and> (discovered env \<noteq> ([], []) \<longrightarrow>
              cached_queues (snd (get_destinations
                 (snd (discover_calls st calls)\<lparr>connection := c, session := s\<rparr>) env))
                = Some (fst (discovered env))
              \<and> cached_topics (snd (get_destinations
                 (snd (discover_calls st calls)\<lparr>connection := c, session := s\<rparr>) env))
                = Some (snd (discovered env)))"
proof -
  have "cache_tracks [] st"
    using assms(1,2) by (simp add: cache_tracks_def)
  then have t: "cache_tracks (good_discoveries calls) (snd (discover_calls st calls))"
    using discover_calls_tracks [of "[]" st calls] by simp
  have nc: "\<not> not_connected
                (snd (discover_calls st calls)\<lparr>connection := c, session := s\<rparr>)"
    using assms(3,4) by (simp add: not_connected_def)
  have "fst (get_destinations
               (snd (discover_calls st calls)\<lparr>connection := c, session := s\<rparr>) env) =
           (if discovered env \<noteq> ([], []) then discovered env else last_good calls)
         \<and> (discovered env \<noteq> ([], []) \<longrightarrow>
              cached_queues (snd (get_destinations
                 (snd (discover_calls st calls)\<lparr>connection := c, session := s\<rparr>) env))
                = Some (fst (discovered env))
              \<and> cached_topics (snd (get_destinations
                 (snd (discover_calls st calls)\<lparr>connection := c, session := s\<rparr>) env))
                = Some (snd (discovered env)))"
    using get_destinations_step [OF t, of c s env] assms(3,4) nc
    by (auto simp: last_good_def get_destinations_def split: prod.splits)
  then show ?thesis
    using last_good_empty [of calls] by blast
qed

text \<open>
  C5 on concrete input: a first call finds the queue \<^verbatim>\<open>orders\<close>, a call while
  disconnected follows, and a call in which both strategies find nothing still reports
  \<^verbatim>\<open>orders\<close>.
\<close>

theorem get_destinations_last_good_witness:
  "cached_queues jvm_thread_init = None \<and> cached_topics jvm_thread_init = None
   \<and> discovered (ex_discovery [] []) = ([], [])
   \<and> last_good ex_discover_calls = ([''orders''], [])
   \<and> fst (get_destinations
            (snd (discover_calls jvm_thread_init ex_discover_calls)
               \<lparr>connection := Some 1, session := Some 2\<rparr>)
            (ex_discovery [] [])) = ([''orders''], [])"
proof -
  have a: "cached_queues jvm_thread_init = None" "cached_topics jvm_thread_init = None"
    by (simp_all add: jvm_thread_init_def)
  have g: "last_good ex_discover_calls = ([''orders''], [])"
    by (simp add: last_good_def latest_def good_discoveries_def ex_discover_calls_def
        ex_discovered_orders)
  show ?thesis
    using get_destinations_last_good
            [OF a, of "Some 1" "Some 2" ex_discover_calls "ex_discovery [] []"]
    by (simp add: a g ex_discovered_nothing)
qed

subsection \<open>Disconnecting\<close>

text \<open>
  C8, as stated, fails: when \<^verbatim>\<open>session.close()\<close> raises, \<^verbatim>\<open>disconnect()\<close> leaves through
  its handler before either handle is cleared, and both handles are still set afterwards.
\<close>

theorem disconnect_counterexample:
  "session (snd (disconnect ex_connected True False)) \<noteq> None
   \<and> connection (snd (disconnect ex_connected True False)) \<noteq> None"
  by (simp add: disconnect_def disconnect_try_def ex_connected_def jvm_thread_init_def)

text \<open>
  C8, amended: \<^verbatim>\<open>disconnect()\<close> never raises. If the session handle is set and
  \<^verbatim>\<open>session.close()\<close> raises, it returns \<^verbatim>\<open>False\<close> and leaves both handles as they
  were. Otherwise the session handle is cleared; if the connection handle is set and
  \<^verbatim>\<open>connection.close()\<close> raises, it returns \<^verbatim>\<open>False\<close> and the connection handle is
  kept. Otherwise it returns \<^verbatim>\<open>True\<close> with both handles cleared. So, called with
  neither handle set it returns \<^verbatim>\<open>True\<close> and changes nothing; when no close raises it
  returns \<^verbatim>\<open>True\<close> with both handles cleared; and after a call that returned
  \<^verbatim>\<open>True\<close> a further call returns \<^verbatim>\<open>True\<close> and changes nothing.
\<close>

theorem disconnect_handles:
  "disconnect st sr cr =
     (if session st \<noteq> None \<and> sr then (Inr False, st)
      else if connection st \<noteq> None \<and> cr then (Inr False, st\<lparr>session := None\<rparr>)
      else (Inr True, st\<lparr>session := None, connection := None\<rparr>))
   \<and> (\<exists>b. fst (disconnect st sr cr) = Inr b)
   \<and> (session st = None \<and> connection st = None \<longrightarrow> disconnect st sr cr = (Inr True, st))
   \<and> (\<not> sr \<and> \<not> cr \<longrightarrow>
        fst (disconnect st sr cr) = Inr True
        \<and> session (snd (disconnect st sr cr)) = None
        \<and> connection (snd (disconnect st sr cr)) = None)
   \<and> (fst (disconnect st sr cr) = Inr True \<longrightarrow>
        session (snd (disconnect st sr cr)) = None
        \<and> connection (snd (disconnect st sr cr)) = None
        \<and> disconnect (snd (disconnect st sr cr)) sr' cr' =
            (Inr True, snd (disconnect st sr cr)))
   \<and> (session st \<noteq> None \<and> sr \<longrightarrow> disconnect st sr cr = (Inr False, st))
   \<and> (\<not> (session st \<noteq> None \<and> sr) \<and> connection st \<noteq> None \<and> cr \<longrightarrow>
        fst (disconnect st sr cr) = Inr False
        \<and> session (snd (disconnect st sr cr)) = None
        \<and> connection (snd (disconnect st sr cr)) = connection st)"
  by (auto simp: disconnect_def disconnect_try_def Let_def)

text \<open>
  The amended C8 on concrete input: the unconnected engine; the connected engine without
  failures (and a second call after it) and with each of the two closes raising; and the
  engine that has a connection but no session, without failure and with the close of the
  connection raising.
\<close>

theorem disconnect_handles_witness:
  "disconnect jvm_thread_init True True = (Inr True, jvm_thread_init)
   \<and> disconnect ex_connected False False = (Inr True, jvm_thread_init)
   \<and> disconnect (snd (disconnect ex_connected False False)) True True
       = (Inr True, jvm_thread_init)
   \<and> disconnect ex_connected True False = (Inr False, ex_connected)
   \<and> disconnect ex_connected False True = (Inr False, ex_connected\<lparr>session := None\<rparr>)
   \<and> disconnect (ex_connected\<lparr>session := None\<rparr>) True False = (Inr True, jvm_thread_init)
   \<and> disconnect (ex_connected\<lparr>session := None\<rparr>) True True
       = (Inr False, ex_connected\<lparr>session := None\<rparr>)"
  using disconnect_handles [of jvm_thread_init True True True True]
    disconnect_handles [of ex_connected False False True True]
    disconnect_handles [of ex_connected True False True True]
    disconnect_handles [of ex_connected False True True True]
    disconnect_handles [of "ex_connected\<lparr>session := None\<rparr>" True False True True]
    disconnect_handles [of "ex_connected\<lparr>session := None\<rparr>" True True True True]
  by (simp add: disconnect_def disconnect_try_def ex_connected_def jvm_thread_init_def)

subsection \<open>Topic listeners\<close>






subsection \<open>Starting to monitor one destination\<close>

lemma create_listener_monitored:
  "monitored_queues (fst (snd (create_topic_message_listener st br env t))) = monitored_queues st
   \<and> monitored_topics (fst (snd (create_topic_message_listener st br env t))) = monitored_topics st"
  by (simp add: create_topic_message_listener_def Let_def)

lemma create_listeners_monitored:
  "monitored_queues (fst (create_listeners envs ts sb)) = monitored_queues (fst sb)
   \<and> monitored_topics (fst (create_listeners envs ts sb)) = monitored_topics (fst sb)"
  by (induction envs ts sb rule: create_listeners.induct) (simp_all add: create_listener_monitored)

lemma monitor_all_monitored:
  "monitored_queues (fst (monitor_all st br env queues topics)) = queues
   \<and> monitored_topics (fst (monitor_all st br env queues topics)) = topics"
proof (cases "queues = [] \<and> topics = []")
  case True
  then show ?thesis
    by (simp add: monitor_all_def emergency_stop_monitoring_def)
next
  case False
  then show ?thesis
    using create_listeners_monitored
      [of "listener_envs env" topics
          "(fst (emergency_stop_monitoring st br (consumer_close_raises env))
              \<lparr>monitored_queues := queues, monitored_topics := topics, message_cache := Map.empty\<rparr>,
            snd (emergency_stop_monitoring st br (consumer_close_raises env)))"]
    by (auto simp: monitor_all_def split_def)
qed

lemma take_front_trans:
  "take (length b) c = b \<Longrightarrow> take (length a) b = a \<Longrightarrow> take (length a) c = a"
proof -
  assume bc: "take (length b) c = b" and ab: "take (length a) b = a"
  have "length (take (length a) b) = min (length b) (length a)"
    by (rule length_take)
  with ab have le: "length a \<le> length b"
    by simp
  have "take (length a) c = take (length a) (take (length b) c)"
    using le by (simp add: min_def)
  also have "\<dots> = take (length a) b"
    by (simp only: bc)
  finally show ?thesis
    by (simp only: ab)
qed

lemma start_monitoring_monitored:
  "monitored_queues (fst (start_monitoring st br env n k)) =
     (if k = ''queue'' \<and> n \<notin> set (monitored_queues st)
      then monitored_queues st @ [n] else monitored_queues st)
   \<and> monitored_topics (fst (start_monitoring st br env n k)) =
     (if k = ''topic'' \<and> n \<notin> set (monitored_topics st)
      then monitored_topics st @ [n] else monitored_topics st)"
  by (simp add: start_monitoring_def Let_def monitor_all_monitored)

text \<open>
  C9: after any sequence of \<^verbatim>\<open>start_monitoring\<close> calls, the monitored queues are the
  queues monitored before together with the names of the calls of kind \<^verbatim>\<open>queue\<close>, and
  likewise for topics; the lists monitored before are kept as the front of the new lists.
  The stop at the start of \<^verbatim>\<open>monitor_all\<close> does not lose them.
\<close>

theorem start_monitoring_additive:
  "set (monitored_queues (fst (start_monitoring_calls (st, br) calls))) =
     set (monitored_queues st) \<union> fst ` {c \<in> set calls. fst (snd c) = ''queue''}
   \<and> set (monitored_topics (fst (start_monitoring_calls (st, br) calls))) =
     set (monitored_topics st) \<union> fst ` {c \<in> set calls. fst (snd c) = ''topic''}
   \<and> take (length (monitored_queues st))
         (monitored_queues (fst (start_monitoring_calls (st, br) calls)))
       = monitored_queues st
   \<and> take (length (monitored_topics st))
         (monitored_topics (fst (start_monitoring_calls (st, br) calls)))
       = monitored_topics st"
proof (induction calls arbitrary: st br)
  case Nil
  then show ?case by simp
next
  case (Cons call calls)
  obtain n k env where call: "call = (n, k, env)" by (cases call)
  obtain st1 br1 where s1: "start_monitoring st br env n k = (st1, br1)"
    by (cases "start_monitoring st br env n k")
  let ?end = "fst (start_monitoring_calls (st1, br1) calls)"
  have m: "monitored_queues st1 =
             (if k = ''queue'' \<and> n \<notin> set (monitored_queues st)
              then monitored_queues st @ [n] else monitored_queues st)"
          "monitored_topics st1 =
             (if k = ''topic'' \<and> n \<notin> set (monitored_topics st)
              then monitored_topics st @ [n] else monitored_topics st)"
    using start_monitoring_monitored [of st br env n k] s1 by simp_all
  have r: "start_monitoring_calls (st, br) (call # calls) =
             start_monitoring_calls (st1, br1) calls"
    by (simp add: call s1)
  note ih = Cons.IH [of st1 br1]
  have q: "set (monitored_queues ?end) =
             set (monitored_queues st) \<union>
               fst ` {c \<in> set (call # calls). fst (snd c) = ''queue''}"
    using ih m(1) by (auto simp: call image_iff)
  have t: "set (monitored_topics ?end) =
             set (monitored_topics st) \<union>
               fst ` {c \<in> set (call # calls). fst (snd c) = ''topic''}"
    using ih m(2) by (auto simp: call image_iff)
  have "take (length (monitored_queues st)) (monitored_queues st1) = monitored_queues st"
    using m(1) by simp
  with ih have pq: "take (length (monitored_queues st)) (monitored_queues ?end) =
                      monitored_queues st"
    using take_front_trans by blast
  have "take (length (monitored_topics st)) (monitored_topics st1) = monitored_topics st"
    using m(2) by simp
  with ih have pt: "take (length (monitored_topics st)) (monitored_topics ?end) =
                      monitored_topics st"
    using take_front_trans by blast
  show ?case unfolding r using q t pq pt by simp
qed

text \<open>
  C9 on concrete input: \<^verbatim>\<open>start_monitoring("Q1", "queue")\<close> followed by
  \<^verbatim>\<open>start_monitoring("Q2", "queue")\<close> leaves the monitored queues \<^verbatim>\<open>Q1\<close> and \<^verbatim>\<open>Q2\<close>.
\<close>

theorem start_monitoring_additive_witness:
  "monitored_queues (fst (start_monitoring_calls (ex_connected, ex_broker) ex_two_starts))
     = [''Q1'', ''Q2'']
   \<and> monitored_queues
         (fst (start_monitoring_calls (ex_connected, ex_broker) (take 1 ex_two_starts)))
     = [''Q1'']
   \<and> set (monitored_queues ex_connected) \<union>
        fst ` {c \<in> set ex_two_starts. fst (snd c) = ''queue''} = {''Q1'', ''Q2''}"
  using start_monitoring_additive [of ex_connected ex_broker ex_two_starts]
  by (simp add: ex_two_starts_def start_monitoring_def monitor_all_def
      emergency_stop_monitoring_def Let_def ex_connected_def jvm_thread_init_def)

end
